theory Spec2Isabelle
  imports Complex_Main "HOL-Library.Sublist"
begin

section \<open>Response sanitizer: \<open>clean_json_response\<close>\<close>

text \<open>
  The source searches the model's reply with two regular expressions, both compiled with
  \<open>re.DOTALL\<close>, so that the dot matches every character, newline included:
  an opening code fence followed by \<open>json\<close> and a newline, a lazy group, a newline and a
  closing fence; then a backslash followed by \<open>boxed{\<close>, a lazy group and \<open>}\<close>.
  Both have the shape "literal, lazy group, literal". The search tries start positions from
  the left; at a start position where the opening literal matches, the lazy group grows
  until the closing literal matches, so the group ends at the first occurrence of the
  closing literal behind the opening one. When there is none, no later start position
  can succeed either, since a closing literal behind a later opening literal is also
  behind the first one. \<open>find_sub\<close> splits a string at the first occurrence of a
  literal and \<open>re_between\<close> is the search for such a pattern, returning group 1.
\<close>

fun find_sub :: "'a list \<Rightarrow> 'a list \<Rightarrow> ('a list \<times> 'a list) option" where
  "find_sub pat [] = (if pat = [] then Some ([], []) else None)"
| "find_sub pat (c # cs) =
     (if prefix pat (c # cs) then Some ([], drop (length pat) (c # cs))
      else map_option (\<lambda>(pre, post). (c # pre, post)) (find_sub pat cs))"

definition re_between :: "string \<Rightarrow> string \<Rightarrow> string \<Rightarrow> string option" where
  "re_between opn cls s =
     (case find_sub opn s of
        None \<Rightarrow> None
      | Some (pre, rest) \<Rightarrow>
          (case find_sub cls rest of
             None \<Rightarrow> None
           | Some (inner, post) \<Rightarrow> Some inner))"

definition fence_open :: string where
  "fence_open = ''```json\<newline>''"

definition fence_close :: string where
  "fence_close = ''\<newline>```''"

definition boxed_open :: string where
  "boxed_open = CHR 0x5C # ''boxed{''"

definition boxed_close :: string where
  "boxed_close = ''}''"

definition clean_json_response :: "string \<Rightarrow> string" where
  "clean_json_response response_text =
     (case re_between fence_open fence_close response_text of
        Some g \<Rightarrow> g
      | None \<Rightarrow>
          (case re_between boxed_open boxed_close response_text of
             Some g \<Rightarrow> g
           | None \<Rightarrow> response_text))"


section \<open>Python values\<close>

text \<open>
  The values \<open>json.loads\<close> produces: \<open>None\<close>, booleans, integers, floats, strings,
  lists and dictionaries with string keys (an association list in insertion order).
  A float is a double: it is modelled by the exact rational it denotes, or an
  infinity, or NaN. The program computes nothing with floats but comparisons, which
  are exact on doubles; where it turns an integer into a float, the model rounds the
  integer to the nearest double (\<open>round_int\<close> below). Strings are lists of
  characters with codes below 256.
\<close>

datatype exn = TypeError | ValueError | AttributeError | KeyError | IndexError | OverflowError

datatype pyfloat = Finite rat | PosInf | NegInf | NaN

datatype pyval =
    PNone
  | PBool bool
  | PInt int
  | PFloat pyfloat
  | PStr string
  | PList "pyval list"
  | PDict "(string \<times> pyval) list"

text \<open>Truth value testing, as \<open>not x\<close> and \<open>if x\<close> use it.\<close>

fun truthy :: "pyval \<Rightarrow> bool" where
  "truthy PNone = False"
| "truthy (PBool b) = b"
| "truthy (PInt i) = (i \<noteq> 0)"
| "truthy (PFloat f) = (f \<noteq> Finite 0)"
| "truthy (PStr s) = (s \<noteq> [])"
| "truthy (PList xs) = (xs \<noteq> [])"
| "truthy (PDict kvs) = (kvs \<noteq> [])"

text \<open>\<open>d.get(key)\<close> on a dictionary: the value, or \<open>None\<close> for a missing key.\<close>

definition dict_get :: "(string \<times> pyval) list \<Rightarrow> string \<Rightarrow> pyval" where
  "dict_get kvs k = (case map_of kvs k of None \<Rightarrow> PNone | Some v \<Rightarrow> v)"

text \<open>
  The elements a \<open>for\<close> loop visits: those of a list, the keys of a dictionary, the
  characters of a string; every other value is not iterable.
\<close>

fun py_iter :: "pyval \<Rightarrow> exn + pyval list" where
  "py_iter (PList xs) = Inr xs"
| "py_iter (PDict kvs) = Inr (map (\<lambda>kv. PStr (fst kv)) kvs)"
| "py_iter (PStr s) = Inr (map (\<lambda>c. PStr [c]) s)"
| "py_iter v = Inl TypeError"

text \<open>
  The parts of the Python library and of pandas that the program calls and whose
  algorithms are not its own are parameters of the model:
  \<open>json_loads\<close> is \<open>json.loads\<close> (\<open>None\<close> when it raises \<open>JSONDecodeError\<close>),
  \<open>float_of_str\<close> is \<open>float\<close> on a string (\<open>None\<close> when it raises \<open>ValueError\<close>),
  \<open>repr\<close> is the text an f-string gives a float, a list or a dictionary, and
  \<open>isin\<close> is \<open>Series.isin\<close>.
\<close>

datatype series =
    Int64 "int list"
  | Float64 "pyfloat list"
  | BoolCol "bool list"
  | Object "string option list"

record pylib =
  json_loads :: "string \<Rightarrow> pyval option"
  float_of_str :: "string \<Rightarrow> pyfloat option"
  repr :: "pyval \<Rightarrow> string"
  isin :: "series \<Rightarrow> pyval list \<Rightarrow> exn + bool list"

fun string_of_nat :: "nat \<Rightarrow> string" where
  "string_of_nat n =
     (if n < 10 then [''0123456789'' ! n]
      else string_of_nat (n div 10) @ [''0123456789'' ! (n mod 10)])"

declare string_of_nat.simps [simp del]

text \<open>\<open>str(v)\<close>, which an f-string applies to the value of \<open>{v}\<close>.\<close>

fun py_str :: "pylib \<Rightarrow> pyval \<Rightarrow> string" where
  "py_str lib (PStr s) = s"
| "py_str lib PNone = ''None''"
| "py_str lib (PBool b) = (if b then ''True'' else ''False'')"
| "py_str lib (PInt i) =
     (if i < 0 then CHR ''-'' # string_of_nat (nat (- i)) else string_of_nat (nat i))"
| "py_str lib v = repr lib v"

text \<open>
  The conversion of an integer to a double, as \<open>float\<close> and numpy's cast of an int64
  do it: the integer keeps its 53 leading bits, rounded to nearest, a tie going to the
  even neighbour. \<open>bit_length\<close> is the number of bits of a natural number. Up to
  \<open>2 ^ 53\<close> in magnitude every integer is a double; \<open>2 ^ 53 + 1\<close> is the first that is
  not, and becomes \<open>2 ^ 53\<close>.
\<close>

fun bit_length :: "nat \<Rightarrow> nat" where
  "bit_length n = (if n = 0 then 0 else Suc (bit_length (n div 2)))"

declare bit_length.simps [simp del]

definition round53 :: "nat \<Rightarrow> nat" where
  "round53 n =
     (if bit_length n \<le> 53 then n
      else
        (let e = bit_length n - 53; q = n div 2 ^ e; r = n mod 2 ^ e
         in if 2 * r < 2 ^ e \<or> (2 * r = 2 ^ e \<and> even q) then q * 2 ^ e
            else (q + 1) * 2 ^ e))"

definition round_int :: "int \<Rightarrow> int" where
  "round_int i = (if i < 0 then - int (round53 (nat (- i))) else int (round53 (nat i)))"

text \<open>
  \<open>float(i)\<close> for an integer: the nearest double, or \<open>OverflowError\<close> when the rounded
  value needs more than 1024 bits and so is beyond the largest double.
\<close>

definition int_to_float :: "int \<Rightarrow> exn + pyfloat" where
  "int_to_float i =
     (let r = round_int i
      in if 1024 < bit_length (nat \<bar>r\<bar>) then Inl OverflowError
         else Inr (Finite (of_int r)))"

text \<open>
  \<open>float(v)\<close>: a number or a boolean converts, a string is parsed, anything else is a
  \<open>TypeError\<close>.
\<close>

fun py_float :: "pylib \<Rightarrow> pyval \<Rightarrow> exn + pyfloat" where
  "py_float lib (PInt i) = int_to_float i"
| "py_float lib (PFloat f) = Inr f"
| "py_float lib (PBool b) = Inr (Finite (if b then 1 else 0))"
| "py_float lib (PStr s) =
     (case float_of_str lib s of None \<Rightarrow> Inl ValueError | Some f \<Rightarrow> Inr f)"
| "py_float lib v = Inl TypeError"

section \<open>Data frames\<close>

text \<open>
  A data frame as \<open>pd.read_csv\<close> builds it: named columns in order, each a series of
  one dtype. A missing value is NaN in a float column and \<open>None\<close> here in an object
  column; integer and boolean columns have none.
\<close>

type_synonym frame = "(string \<times> series) list"

fun series_len :: "series \<Rightarrow> nat" where
  "series_len (Int64 xs) = length xs"
| "series_len (Float64 xs) = length xs"
| "series_len (BoolCol xs) = length xs"
| "series_len (Object xs) = length xs"

definition columns :: "frame \<Rightarrow> string list" where
  "columns df = map fst df"

definition nrows :: "frame \<Rightarrow> nat" where
  "nrows df = (case df of [] \<Rightarrow> 0 | c # cs \<Rightarrow> series_len (snd c))"

text \<open>Column names are distinct and all columns have the frame's number of rows.\<close>

definition wf_frame :: "frame \<Rightarrow> bool" where
  "wf_frame df = (distinct (columns df) \<and> list_all (\<lambda>c. series_len (snd c) = nrows df) df)"

text \<open>\<open>df[c] = s\<close>: replaces the column named \<open>c\<close> where it stands, or appends it.\<close>

fun setitem :: "frame \<Rightarrow> string \<Rightarrow> series \<Rightarrow> frame" where
  "setitem [] c s = [(c, s)]"
| "setitem (col # df) c s = (if fst col = c then (c, s) # df else col # setitem df c s)"

fun is_numeric_dtype :: "series \<Rightarrow> bool" where
  "is_numeric_dtype (Object xs) = False"
| "is_numeric_dtype s = True"

fun isnull :: "series \<Rightarrow> bool list" where
  "isnull (Int64 xs) = map (\<lambda>x. False) xs"
| "isnull (Float64 xs) = map (\<lambda>x. x = NaN) xs"
| "isnull (BoolCol xs) = map (\<lambda>x. False) xs"
| "isnull (Object xs) = map (\<lambda>x. x = None) xs"

text \<open>\<open>a <= b\<close> on floats: false when either side is NaN.\<close>

fun float_le :: "pyfloat \<Rightarrow> pyfloat \<Rightarrow> bool" where
  "float_le NaN b = False"
| "float_le a NaN = False"
| "float_le NegInf b = True"
| "float_le a PosInf = True"
| "float_le (Finite x) (Finite y) = (x \<le> y)"
| "float_le a b = False"

text \<open>
  \<open>series <= v\<close> for a float \<open>v\<close>, row by row. The comparison is made on doubles:
  the values of an integer column are converted first (an int64 is below \<open>2 ^ 63\<close> in
  magnitude, so the conversion rounds but cannot overflow), \<open>True\<close> counts as 1 and
  \<open>False\<close> as 0. On an object column holding text the comparison raises; the program
  only compares columns of a numeric dtype.
\<close>

fun series_le :: "series \<Rightarrow> pyfloat \<Rightarrow> exn + bool list" where
  "series_le (Int64 xs) v =
     Inr (map (\<lambda>x. float_le (Finite (of_int (round_int x))) v) xs)"
| "series_le (Float64 xs) v = Inr (map (\<lambda>x. float_le x v) xs)"
| "series_le (BoolCol xs) v = Inr (map (\<lambda>b. float_le (Finite (if b then 1 else 0)) v) xs)"
| "series_le (Object xs) v = Inl TypeError"

text \<open>
  \<open>df.loc[mask, "Error_Details"] += msg\<close> and \<open>df["Error_Details"] += msg\<close>: the
  message is appended to the text of the selected rows. Adding text to a numeric
  column raises; a missing value stays missing.
\<close>

fun mask_add :: "bool list \<Rightarrow> string \<Rightarrow> string option list \<Rightarrow> string option list" where
  "mask_add (b # bs) msg (d # ds) =
     (if b then map_option (\<lambda>s. s @ msg) d else d) # mask_add bs msg ds"
| "mask_add bs msg ds = ds"

fun series_add :: "series \<Rightarrow> string \<Rightarrow> exn + series" where
  "series_add (Object ds) msg = Inr (Object (map (map_option (\<lambda>s. s @ msg)) ds))"
| "series_add s msg = Inl TypeError"

fun series_loc_add :: "series \<Rightarrow> bool list \<Rightarrow> string \<Rightarrow> exn + series" where
  "series_loc_add (Object ds) sel msg = Inr (Object (mask_add sel msg ds))"
| "series_loc_add s sel msg = Inl TypeError"

definition Error_Details :: string where
  "Error_Details = ''Error_Details''"

definition loc_iadd :: "frame \<Rightarrow> bool list \<Rightarrow> string \<Rightarrow> exn + frame" where
  "loc_iadd df sel msg =
     (case map_of df Error_Details of
        None \<Rightarrow> Inl KeyError
      | Some s \<Rightarrow>
          (case series_loc_add s sel msg of
             Inl e \<Rightarrow> Inl e
           | Inr s' \<Rightarrow> Inr (setitem df Error_Details s')))"

definition iadd :: "frame \<Rightarrow> string \<Rightarrow> exn + frame" where
  "iadd df msg =
     (case map_of df Error_Details of
        None \<Rightarrow> Inl KeyError
      | Some s \<Rightarrow>
          (case series_add s msg of
             Inl e \<Rightarrow> Inl e
           | Inr s' \<Rightarrow> Inr (setitem df Error_Details s')))"

text \<open>
  \<open>column in df.columns\<close> together with \<open>df[column]\<close>: the index hashes the key first,
  so a list or a dictionary raises; the column names are strings, so only a string can
  be among them.
\<close>

fun index_lookup :: "frame \<Rightarrow> pyval \<Rightarrow> exn + series option" where
  "index_lookup df (PStr c) = Inr (map_of df c)"
| "index_lookup df (PList xs) = Inl TypeError"
| "index_lookup df (PDict kvs) = Inl TypeError"
| "index_lookup df v = Inr None"

section \<open>Rule validation: \<open>validate_data\<close>\<close>

text \<open>\<open>isinstance(value, list)\<close>, with the items when it holds.\<close>

fun list_items :: "pyval \<Rightarrow> pyval list option" where
  "list_items (PList xs) = Some xs"
| "list_items v = None"

text \<open>
  The body of the loop over the rules (lines 101 to 113). \<open>rule.get\<close> exists on a
  dictionary only. The three messages are the source's f-strings.
\<close>

definition apply_rule :: "pylib \<Rightarrow> frame \<Rightarrow> pyval \<Rightarrow> exn + frame" where
  "apply_rule lib df rule =
     (case rule of
        PDict kvs \<Rightarrow>
          (let column = dict_get kvs ''column'';
               constraint = dict_get kvs ''constraint'';
               val = dict_get kvs ''value''
           in if \<not> truthy column \<or> \<not> truthy constraint then Inr df
              else
                (case index_lookup df column of
                   Inl e \<Rightarrow> Inl e
                 | Inr None \<Rightarrow> iadd df (py_str lib column @ '' is missing in the dataset. '')
                 | Inr (Some s) \<Rightarrow>
                     if constraint = PStr ''non-null'' then
                       loc_iadd df (isnull s)
                         (py_str lib column @ '' is missing. Provide a valid value. '')
                     else if constraint = PStr ''greater than'' \<and> is_numeric_dtype s then
                       (case py_float lib val of
                          Inl e \<Rightarrow> Inl e
                        | Inr v \<Rightarrow>
                            (case series_le s v of
                               Inl e \<Rightarrow> Inl e
                             | Inr sel \<Rightarrow>
                                 loc_iadd df sel
                                   (py_str lib column @ '' must be greater than '' @
                                    py_str lib val @ ''. '')))
                     else if constraint = PStr ''allowed values'' then
                       (case list_items val of
                          None \<Rightarrow> Inr df
                        | Some xs \<Rightarrow>
                            (case isin lib s xs of
                               Inl e \<Rightarrow> Inl e
                             | Inr sel \<Rightarrow>
                                 loc_iadd df (map Not sel)
                                   (py_str lib column @ '' must be one of '' @
                                    py_str lib val @ ''. '')))
                     else Inr df))
      | _ \<Rightarrow> Inl AttributeError)"

fun apply_rules :: "pylib \<Rightarrow> frame \<Rightarrow> pyval list \<Rightarrow> exn + frame" where
  "apply_rules lib df [] = Inr df"
| "apply_rules lib df (rule # rules) =
     (case apply_rule lib df rule of
        Inl e \<Rightarrow> Inl e
      | Inr df' \<Rightarrow> apply_rules lib df' rules)"

text \<open>
  What a call of \<open>validate_data\<close> does: \<open>InvalidRules\<close> is the return of line 96, after
  the message of line 95 and before anything is written; \<open>Raised e\<close> is an exception
  that leaves the function, also before anything is written; \<open>Saved df\<close> is the frame
  handed to \<open>df.to_excel\<close>. The argument \<open>df\<close> is the frame \<open>pd.read_csv\<close> returned.
  The colouring of the written cells changes no value and is not modelled.
\<close>

datatype outcome = InvalidRules | Raised exn | Saved frame

fun output_file :: "outcome \<Rightarrow> frame option" where
  "output_file (Saved df) = Some df"
| "output_file r = None"


definition validate_data :: "pylib \<Rightarrow> frame \<Rightarrow> string \<Rightarrow> outcome" where
  "validate_data lib df rules =
     (case json_loads lib rules of
        None \<Rightarrow> InvalidRules
      | Some parsed \<Rightarrow>
          (let df1 = setitem df Error_Details (Object (replicate (nrows df) (Some [])))
           in case py_iter parsed of
                Inl e \<Rightarrow> Raised e
              | Inr rs \<Rightarrow>
                  (case apply_rules lib df1 rs of
                     Inl e \<Rightarrow> Raised e
                   | Inr df2 \<Rightarrow> Saved df2)))"

section \<open>Rule extraction: \<open>extract_profile_rules\<close>\<close>

text \<open>
  The function builds a request and posts it; the model starts from the response
  \<open>requests.post\<close> returned: its status code and its body. The messages printed are
  not modelled.
\<close>

record response =
  status_code :: int
  body :: string

definition bind_exn :: "exn + 'a \<Rightarrow> ('a \<Rightarrow> exn + 'b) \<Rightarrow> exn + 'b" where
  "bind_exn r f = (case r of Inl e \<Rightarrow> Inl e | Inr x \<Rightarrow> f x)"

text \<open>\<open>result.get("choices", [])\<close>: only a dictionary has \<open>get\<close>.\<close>

fun get_choices :: "pyval \<Rightarrow> exn + pyval" where
  "get_choices (PDict kvs) =
     Inr (case map_of kvs ''choices'' of None \<Rightarrow> PList [] | Some v \<Rightarrow> v)"
| "get_choices v = Inl AttributeError"

text \<open>\<open>x[0]\<close>.\<close>

fun first_item :: "pyval \<Rightarrow> exn + pyval" where
  "first_item (PList (x # xs)) = Inr x"
| "first_item (PList []) = Inl IndexError"
| "first_item (PStr (c # cs)) = Inr (PStr [c])"
| "first_item (PStr []) = Inl IndexError"
| "first_item (PDict kvs) = Inl KeyError"
| "first_item v = Inl TypeError"

text \<open>\<open>k in x\<close> for a string \<open>k\<close>.\<close>

fun py_contains :: "string \<Rightarrow> pyval \<Rightarrow> exn + bool" where
  "py_contains k (PDict kvs) = Inr (k \<in> set (map fst kvs))"
| "py_contains k (PList xs) = Inr (PStr k \<in> set xs)"
| "py_contains k (PStr s) = Inr (find_sub k s \<noteq> None)"
| "py_contains k v = Inl TypeError"

text \<open>\<open>x[k]\<close> for a string \<open>k\<close>.\<close>

fun py_getitem :: "pyval \<Rightarrow> string \<Rightarrow> exn + pyval" where
  "py_getitem (PDict kvs) k = (case map_of kvs k of None \<Rightarrow> Inl KeyError | Some v \<Rightarrow> Inr v)"
| "py_getitem v k = Inl TypeError"

text \<open>\<open>str.strip\<close> and the white space it removes, among the characters below 256.\<close>

definition is_space :: "char \<Rightarrow> bool" where
  "is_space c =
     (let n = (of_char c :: nat)
      in (9 \<le> n \<and> n \<le> 13) \<or> (28 \<le> n \<and> n \<le> 32) \<or> n = 133 \<or> n = 160)"

definition strip :: "string \<Rightarrow> string" where
  "strip s = rev (dropWhile is_space (rev (dropWhile is_space s)))"

definition extract_profile_rules :: "pylib \<Rightarrow> response \<Rightarrow> exn + string" where
  "extract_profile_rules lib resp =
     (if status_code resp \<noteq> 200 then Inr ''[]''
      else
        (case json_loads lib (body resp) of
           None \<Rightarrow> Inr ''[]''
         | Some result \<Rightarrow>
             bind_exn (get_choices result) (\<lambda>choices.
               if \<not> truthy choices then Inr ''[]''
               else
                 bind_exn (first_item choices) (\<lambda>c0.
                 bind_exn (py_contains ''message'' c0) (\<lambda>has_message.
                   if \<not> has_message then Inr ''[]''
                   else
                     bind_exn (py_getitem c0 ''message'') (\<lambda>message.
                     bind_exn (py_contains ''content'' message) (\<lambda>has_content.
                       if \<not> has_content then Inr ''[]''
                       else
                         bind_exn (py_getitem message ''content'') (\<lambda>rules_text.
                           (case rules_text of
                              PStr t \<Rightarrow>
                                (let cleaned_json = clean_json_response t
                                 in if prefix ''['' (strip cleaned_json) then Inr cleaned_json
                                    else Inr ''[]'')
                            | _ \<Rightarrow> Inl TypeError)))))))))"

section \<open>Example inputs\<close>

text \<open>
  The concrete inputs of the examples below. \<open>example_texts\<close> lists, for each JSON
  text used there, the value \<open>json.loads\<close> returns for it; a text that is not listed
  (\<open>not json\<close> is the one used) stands for a text \<open>json.loads\<close> rejects.
  \<open>example_floats\<close> does the same for \<open>float\<close> on a string; \<open>abc\<close> is the one
  string used that is not listed. No example reaches \<open>repr\<close> or \<open>isin\<close>.
\<close>

definition example_texts :: "(string \<times> pyval) list" where
  \<open>example_texts =
    [(''[]'', PList []),
     (''[1]'', PList [PInt 1]),
     (''{"a": 1}'', PDict [(''a'', PInt 1)]),
     (''[{"column": "Amount", "constraint": "greater than", "value": 0}]'',
        PList [PDict [(''column'', PStr ''Amount''), (''constraint'', PStr ''greater than''),
                      (''value'', PInt 0)]]),
     (''[{"column": "Amount", "constraint": "greater-than", "value": 0}]'',
        PList [PDict [(''column'', PStr ''Amount''), (''constraint'', PStr ''greater-than''),
                      (''value'', PInt 0)]]),
     (''[{"column": "Amount", "constraint": "greater than", "value": "abc"}]'',
        PList [PDict [(''column'', PStr ''Amount''), (''constraint'', PStr ''greater than''),
                      (''value'', PStr ''abc'')]]),
     (''[{"column": "Region", "constraint": "non-null"}]'',
        PList [PDict [(''column'', PStr ''Region''), (''constraint'', PStr ''non-null'')]]),
     (''[{"column": "Error_Details", "constraint": "non-null"}]'',
        PList [PDict [(''column'', PStr ''Error_Details''), (''constraint'', PStr ''non-null'')]]),
     (''{"choices": [{"message": {"content": null}}]}'',
        PDict [(''choices'', PList [PDict [(''message'', PDict [(''content'', PNone)])]])]),
     (''[{"column": "Amount", "constraint": "greater than", "value": 9007199254740992}]'',
        PList [PDict [(''column'', PStr ''Amount''), (''constraint'', PStr ''greater than''),
                      (''value'', PInt 9007199254740992)]])]\<close>

definition example_floats :: "(string \<times> pyfloat) list" where
  "example_floats = [(''0'', Finite 0), (''10'', Finite 10)]"

definition example_lib :: pylib where
  "example_lib =
     \<lparr>json_loads = map_of example_texts,
      float_of_str = map_of example_floats,
      repr = (\<lambda>v. []),
      isin = (\<lambda>s xs. Inl TypeError)\<rparr>"

definition amounts :: frame where
  "amounts = [(''Amount'', Int64 [- 5, 10])]"

definition large_amounts :: frame where
  "large_amounts = [(''Amount'', Int64 [9007199254740993, 9007199254740992])]"

definition annotated_before :: frame where
  "annotated_before = [(''Error_Details'', Object [Some ''old'']), (''Amount'', Int64 [5])]"

section \<open>Properties of the sanitizer\<close>

subsection \<open>Splitting at the first occurrence\<close>

lemma find_sub_SomeD: "find_sub pat s = Some (pre, post) \<Longrightarrow> s = pre @ pat @ post"
proof (induction s arbitrary: pre)
  case Nil then show ?case by (simp split: if_splits)
next
  case (Cons c cs)
  show ?case
  proof (cases "prefix pat (c # cs)")
    case True
    then obtain zs where zs: "c # cs = pat @ zs" by (auto simp: prefix_def)
    from True Cons.prems have "pre = []" and "post = drop (length pat) (c # cs)" by simp_all
    with zs show ?thesis by simp
  next
    case False
    with Cons.prems(1) obtain pre' where "find_sub pat cs = Some (pre', post)" and "pre = c # pre'"
      by auto
    with Cons.IH show ?thesis by simp
  qed
qed

lemma find_sub_first:
  "find_sub pat s = Some (pre, post) \<Longrightarrow> s = p @ pat @ q \<Longrightarrow> length pre \<le> length p"
proof (induction s arbitrary: pre p)
  case Nil then show ?case by (simp split: if_splits)
next
  case (Cons c cs)
  show ?case
  proof (cases "prefix pat (c # cs)")
    case True
    with Cons.prems(1) have "pre = []" by simp
    then show ?thesis by simp
  next
    case False
    with Cons.prems(1) obtain pre' where f: "find_sub pat cs = Some (pre', post)" and pre: "pre = c # pre'"
      by auto
    from False Cons.prems(2) have "p \<noteq> []" by auto
    then obtain p' where p: "p = c # p'" using Cons.prems(2) by (cases p) auto
    with Cons.prems(2) have "cs = p' @ pat @ q" by simp
    from Cons.IH[OF f this] pre p show ?thesis by simp
  qed
qed

lemma find_sub_None: "find_sub pat s = None \<Longrightarrow> s \<noteq> p @ pat @ q"
proof (induction s arbitrary: p)
  case Nil then show ?case by (simp split: if_splits)
next
  case (Cons c cs)
  show ?case
  proof
    assume eq: "c # cs = p @ pat @ q"
    from Cons.prems have np: "\<not> prefix pat (c # cs)" and n: "find_sub pat cs = None"
      by (auto split: if_splits)
    from np eq have "p \<noteq> []" by auto
    then obtain p' where "p = c # p'" using eq by (cases p) auto
    with eq have "cs = p' @ pat @ q" by simp
    with Cons.IH[OF n] show False by blast
  qed
qed

lemma find_sub_complete:
  assumes "s = p @ pat @ q"
  shows "\<exists>pre post. find_sub pat s = Some (pre, post) \<and> length pre \<le> length p"
proof (cases "find_sub pat s")
  case None
  with find_sub_None[of pat s p q] assms show ?thesis by simp
next
  case (Some r)
  then obtain pre post where "find_sub pat s = Some (pre, post)" by (cases r) auto
  with find_sub_first[OF this assms] show ?thesis by blast
qed

lemma re_between_SomeD:
  assumes "re_between opn cls s = Some g"
  shows "\<exists>pre post. find_sub opn s = Some (pre, g @ cls @ post) \<and> find_sub cls (g @ cls @ post) = Some (g, post)"
proof -
  from assms obtain pre rest where f1: "find_sub opn s = Some (pre, rest)"
    by (auto simp: re_between_def split: option.splits)
  with assms obtain post where f2: "find_sub cls rest = Some (g, post)"
    by (auto simp: re_between_def split: option.splits)
  from find_sub_SomeD[OF f2] f1 f2 show ?thesis by auto
qed

lemma re_between_found:
  assumes "s = p @ opn @ i @ cls @ q"
  shows "\<exists>g. re_between opn cls s = Some g"
proof -
  from assms have "s = p @ opn @ (i @ cls @ q)" by simp
  from find_sub_complete[OF this] obtain pre rest
    where f1: "find_sub opn s = Some (pre, rest)" and le: "length pre \<le> length p" by blast
  from find_sub_SomeD[OF f1] have s: "s = pre @ opn @ rest" .
  have "rest = drop (length pre + length opn) s" using s by simp
  also have "\<dots> = drop (length pre + length opn) (p @ opn) @ i @ cls @ q"
    using le assms by simp
  finally have "rest = (drop (length pre + length opn) (p @ opn) @ i) @ cls @ q" by simp
  from find_sub_complete[OF this] obtain g post where "find_sub cls rest = Some (g, post)" by blast
  with f1 show ?thesis by (simp add: re_between_def)
qed

lemma re_between_NoneD: "re_between opn cls s = None \<Longrightarrow> s \<noteq> p @ opn @ i @ cls @ q"
  using re_between_found[of s p opn i cls q] by auto

lemma re_between_NoneI:
  assumes "\<forall>p i q. s \<noteq> p @ opn @ i @ cls @ q"
  shows "re_between opn cls s = None"
proof (cases "re_between opn cls s")
  case None then show ?thesis .
next
  case (Some g)
  from re_between_SomeD[OF this] obtain pre post
    where "find_sub opn s = Some (pre, g @ cls @ post)" by blast
  from find_sub_SomeD[OF this] assms show ?thesis by blast
qed

lemma re_between_leftmost_shortest:
  assumes g: "re_between opn cls s = Some g" and s: "s = p @ opn @ i @ cls @ q"
  shows "\<exists>pre post. s = pre @ opn @ g @ cls @ post \<and> length pre \<le> length p \<and>
           (length p = length pre \<longrightarrow> length g \<le> length i)"
proof -
  from re_between_SomeD[OF g] obtain pre post
    where f1: "find_sub opn s = Some (pre, g @ cls @ post)"
      and f2: "find_sub cls (g @ cls @ post) = Some (g, post)" by blast
  from find_sub_SomeD[OF f1] have s': "s = pre @ opn @ g @ cls @ post" .
  from s have "s = p @ opn @ (i @ cls @ q)" by simp
  from find_sub_first[OF f1 this] have le: "length pre \<le> length p" .
  have "length g \<le> length i" if "length p = length pre"
  proof -
    from that s s' have "g @ cls @ post = i @ cls @ q" by (metis append_eq_append_conv)
    from find_sub_first[OF f2 this] show ?thesis .
  qed
  with s' le show ?thesis by blast
qed



lemma find_sub_single:
  "find_sub [x] s =
     (if x \<in> set s then Some (takeWhile (\<lambda>c. c \<noteq> x) s, tl (dropWhile (\<lambda>c. c \<noteq> x) s)) else None)"
  by (induction s) auto

lemma takeWhile_strict_prefix:
  assumes "x \<in> set xs"
  shows "strict_prefix (takeWhile (\<lambda>c. c \<noteq> x) xs) xs"
proof -
  have "takeWhile (\<lambda>c. c \<noteq> x) xs @ dropWhile (\<lambda>c. c \<noteq> x) xs = xs" by simp
  then have "prefix (takeWhile (\<lambda>c. c \<noteq> x) xs) xs" by (rule prefixI[OF sym])
  moreover have "takeWhile (\<lambda>c. c \<noteq> x) xs \<noteq> xs"
    using assms by (simp add: takeWhile_eq_all_conv)
  ultimately show ?thesis by (simp add: strict_prefix_def)
qed


text \<open>
  C7. When the reply contains a fence (the opening line, any text, the closing line),
  \<open>clean_json_response\<close> returns the interior of a fence of the reply, with the markers
  removed: the fence that opens first and, among those, closes first, so that every
  other fence of the reply opens no earlier and, opening at the same place, is no
  shorter. When the reply contains neither a fence nor a boxed wrapper, it is returned
  unchanged.
\<close>

theorem clean_json_response_fence_identity:
  "(raw = pre @ fence_open @ inner @ fence_close @ post \<longrightarrow>
      (\<exists>pre' post'.
         raw = pre' @ fence_open @ clean_json_response raw @ fence_close @ post' \<and>
         length pre' \<le> length pre \<and>
         (length pre = length pre' \<longrightarrow> length (clean_json_response raw) \<le> length inner))) \<and>
   ((\<forall>p i q. raw \<noteq> p @ fence_open @ i @ fence_close @ q) \<and>
    (\<forall>p i q. raw \<noteq> p @ boxed_open @ i @ boxed_close @ q) \<longrightarrow>
      clean_json_response raw = raw)"
proof (intro conjI impI)
  assume raw: "raw = pre @ fence_open @ inner @ fence_close @ post"
  from re_between_found[OF raw] obtain g where g: "re_between fence_open fence_close raw = Some g" ..
  then have c: "clean_json_response raw = g" by (simp add: clean_json_response_def)
  from re_between_leftmost_shortest[OF g raw]
  show "\<exists>pre' post'.
         raw = pre' @ fence_open @ clean_json_response raw @ fence_close @ post' \<and>
         length pre' \<le> length pre \<and>
         (length pre = length pre' \<longrightarrow> length (clean_json_response raw) \<le> length inner)"
    unfolding c by blast
next
  assume "(\<forall>p i q. raw \<noteq> p @ fence_open @ i @ fence_close @ q) \<and>
    (\<forall>p i q. raw \<noteq> p @ boxed_open @ i @ boxed_close @ q)"
  then have "re_between fence_open fence_close raw = None" "re_between boxed_open boxed_close raw = None"
    by (simp_all add: re_between_NoneI)
  then show "clean_json_response raw = raw" by (simp add: clean_json_response_def)
qed


theorem clean_json_response_fence_identity_witness:
  \<open>clean_json_response (''Here: '' @ fence_open @ ''[{"column": "Amount"}]'' @ fence_close @ '' done'')
     = ''[{"column": "Amount"}]'' \<and>
   clean_json_response ''[{"column": "Amount"}]'' = ''[{"column": "Amount"}]''\<close>
proof -
  let ?j = \<open>''[{"column": "Amount"}]''\<close>
  let ?raw = "''Here: '' @ fence_open @ ?j @ fence_close @ '' done''"
  have c: "clean_json_response ?raw = ?j"
    by (simp add: clean_json_response_def re_between_def fence_open_def fence_close_def)
  have "re_between fence_open fence_close ?j = None"
    by (simp add: re_between_def fence_open_def)
  then have n1: "\<forall>p i q. ?j \<noteq> p @ fence_open @ i @ fence_close @ q"
    using re_between_NoneD by blast
  have "re_between boxed_open boxed_close ?j = None"
    by (simp add: re_between_def boxed_open_def)
  then have n2: "\<forall>p i q. ?j \<noteq> p @ boxed_open @ i @ boxed_close @ q"
    using re_between_NoneD by blast
  have "clean_json_response ?j = ?j"
    by (rule mp[OF clean_json_response_fence_identity[THEN conjunct2] conjI[OF n1 n2]])
  with c show ?thesis by (rule conjI)
qed

text \<open>
  C9. Without a fence, and with a boxed wrapper (the first in the reply) whose content
  contains a closing brace, \<open>clean_json_response\<close> returns the content up to its first
  closing brace only, a proper prefix of the content.
\<close>

theorem clean_json_response_boxed_truncates:
  assumes "\<forall>p i q. raw \<noteq> p @ fence_open @ i @ fence_close @ q"
    and "raw = pre @ boxed_open @ content @ ''}'' @ post"
    and "\<forall>p q. raw = p @ boxed_open @ q \<longrightarrow> length pre \<le> length p"
    and "CHR ''}'' \<in> set content"
  shows "clean_json_response raw = takeWhile (\<lambda>c. c \<noteq> CHR ''}'') content \<and>
         strict_prefix (clean_json_response raw) content"
proof -
  from assms(1) have nf: "re_between fence_open fence_close raw = None"
    by (rule re_between_NoneI)
  from assms(2) have raw: "raw = pre @ boxed_open @ (content @ ''}'' @ post)" by simp
  from find_sub_complete[OF raw] obtain pre' rest
    where f: "find_sub boxed_open raw = Some (pre', rest)" and le: "length pre' \<le> length pre"
    by blast
  from find_sub_SomeD[OF f] have raw': "raw = pre' @ boxed_open @ rest" .
  from assms(3) raw' have "length pre \<le> length pre'" by blast
  with le have len: "length pre' = length pre" by simp
  from raw raw' have "pre' @ (boxed_open @ rest) = pre @ (boxed_open @ (content @ ''}'' @ post))"
    by simp
  with len have "boxed_open @ rest = boxed_open @ (content @ ''}'' @ post)"
    using append_eq_append_conv[of pre' pre] by blast
  then have rest: "rest = content @ ''}'' @ post" by (simp only: same_append_eq)
  let ?t = "takeWhile (\<lambda>c. c \<noteq> CHR ''}'') content"
  from assms(4) have tw: "takeWhile (\<lambda>c. c \<noteq> CHR ''}'') rest = ?t"
    unfolding rest by (simp add: takeWhile_append1)
  have "CHR ''}'' \<in> set rest" unfolding rest by simp
  then have "find_sub boxed_close rest = Some (?t, tl (dropWhile (\<lambda>c. c \<noteq> CHR ''}'') rest))"
    unfolding boxed_close_def find_sub_single tw by simp
  with f have "re_between boxed_open boxed_close raw = Some ?t"
    by (simp add: re_between_def)
  with nf have c: "clean_json_response raw = ?t" by (simp add: clean_json_response_def)
  from takeWhile_strict_prefix[OF assms(4)] c show ?thesis by simp
qed


theorem clean_json_response_boxed_truncates_witness:
  \<open>clean_json_response (boxed_open @ ''[{"a":1}]}'') = ''[{"a":1'' \<and>
   strict_prefix (clean_json_response (boxed_open @ ''[{"a":1}]}'')) ''[{"a":1}]''\<close>
proof -
  let ?raw = \<open>boxed_open @ ''[{"a":1}]}''\<close>
  have "re_between fence_open fence_close ?raw = None"
    by (simp add: re_between_def fence_open_def boxed_open_def)
  then have n: "\<forall>p i q. ?raw \<noteq> p @ fence_open @ i @ fence_close @ q"
    using re_between_NoneD by blast
  have d: \<open>?raw = [] @ boxed_open @ ''[{"a":1}]'' @ ''}'' @ []\<close> by simp
  have f: "\<forall>p q. ?raw = p @ boxed_open @ q \<longrightarrow> length ([] :: string) \<le> length p"
    by (simp only: list.size le0 simp_thms)
  have m: \<open>CHR ''}'' \<in> set ''[{"a":1}]''\<close> by simp
  have t: \<open>takeWhile (\<lambda>c. c \<noteq> CHR ''}'') ''[{"a":1}]'' = ''[{"a":1''\<close> by simp
  from clean_json_response_boxed_truncates[OF n d f m] show ?thesis unfolding t .
qed

section \<open>Properties of the conversion to doubles\<close>

lemma bit_length_le: "n < 2 ^ k \<Longrightarrow> bit_length n \<le> k"
proof (induction k arbitrary: n)
  case 0
  then show ?case by (simp add: bit_length.simps)
next
  case (Suc k)
  show ?case
  proof (cases "n = 0")
    case True
    then show ?thesis by (simp add: bit_length.simps)
  next
    case False
    from Suc.prems have "n div 2 < 2 ^ k" by simp
    from Suc.IH[OF this] False show ?thesis by (subst bit_length.simps) simp
  qed
qed

lemma bit_length_2_53: "bit_length 9007199254740992 = 54"
  by (simp add: bit_length.simps)

lemma round53_exact: "n \<le> 9007199254740992 \<Longrightarrow> round53 n = n"
proof (cases "n = 9007199254740992")
  case True
  then show ?thesis by (simp add: round53_def bit_length_2_53 Let_def)
next
  case False
  assume "n \<le> 9007199254740992"
  with False have "n < 2 ^ 53" by simp
  from bit_length_le[OF this] show ?thesis by (simp add: round53_def)
qed

text \<open>Integers up to \<open>2 ^ 53\<close> in magnitude are doubles, and \<open>float\<close> accepts them.\<close>

lemma round_int_exact: "\<bar>i\<bar> \<le> 9007199254740992 \<Longrightarrow> round_int i = i"
  by (auto simp: round_int_def round53_exact)

lemma int_to_float_exact:
  assumes "\<bar>i\<bar> \<le> 9007199254740992"
  shows "int_to_float i = Inr (Finite (of_int i))"
proof -
  from assms have "nat \<bar>i\<bar> < 2 ^ 54" by simp
  from bit_length_le[OF this] have "\<not> 1024 < bit_length (nat \<bar>i\<bar>)" by simp
  with assms show ?thesis by (simp add: int_to_float_def round_int_exact)
qed

text \<open>The first integer that is not a double is rounded to its even neighbour.\<close>

lemma round_int_2_53_plus_1: "round_int 9007199254740993 = 9007199254740992"
  by (simp add: round_int_def round53_def bit_length.simps Let_def)

text \<open>Within that range the comparison of an integer column is the one on integers.\<close>

lemma series_le_int64_exact:
  assumes "list_all (\<lambda>x. \<bar>x\<bar> \<le> 2 ^ 53) xs" and "\<bar>k\<bar> \<le> 2 ^ 53"
  shows "series_le (Int64 xs) (Finite (of_int k)) = Inr (map (\<lambda>x. x \<le> k) xs)"
proof -
  have "float_le (Finite (of_int (round_int x))) (Finite (of_int k)) = (x \<le> k)"
    if "x \<in> set xs" for x
  proof -
    from that assms(1) have "\<bar>x\<bar> \<le> 9007199254740992" by (simp add: list_all_iff)
    then show ?thesis by (simp add: round_int_exact)
  qed
  then show ?thesis by simp
qed

section \<open>Properties of the data frame operations\<close>

lemma map_of_setitem_same: "map_of (setitem df c s) c = Some s"
  by (induction df) auto

lemma map_of_setitem_other: "c' \<noteq> c \<Longrightarrow> map_of (setitem df c s) c' = map_of df c'"
  by (induction df) auto

lemma setitem_setitem: "setitem (setitem df c s) c s' = setitem df c s'"
  by (induction df) auto

lemma filter_setitem:
  "filter (\<lambda>col. fst col \<noteq> c) (setitem df c s) = filter (\<lambda>col. fst col \<noteq> c) df"
  by (induction df) auto

lemma setitem_new: "c \<notin> set (columns df) \<Longrightarrow> setitem df c s = df @ [(c, s)]"
  by (induction df) (auto simp: columns_def)

lemma mask_add_replicate:
  "length sel = n \<Longrightarrow>
     mask_add sel msg (replicate n (Some [])) = map (\<lambda>b. Some (if b then msg else [])) sel"
  by (induction sel arbitrary: n) auto

lemma series_le_numeric:
  "is_numeric_dtype s \<Longrightarrow> \<exists>sel. series_le s v = Inr sel \<and> length sel = series_len s"
  by (cases s) auto

lemma wf_frame_len: "wf_frame df \<Longrightarrow> map_of df c = Some s \<Longrightarrow> series_len s = nrows df"
  by (auto simp: wf_frame_def list_all_iff dest!: map_of_SomeD)

text \<open>Every step of the loop writes the column \<open>Error_Details\<close> only.\<close>

lemma loc_iadd_setitem:
  "loc_iadd df sel msg = Inr df' \<Longrightarrow> \<exists>s. df' = setitem df Error_Details s"
  by (auto simp: loc_iadd_def split: option.splits sum.splits)

lemma iadd_setitem: "iadd df msg = Inr df' \<Longrightarrow> \<exists>s. df' = setitem df Error_Details s"
  by (auto simp: iadd_def split: option.splits sum.splits)

lemma apply_rule_setitem:
  assumes "apply_rule lib df rule = Inr df'"
  shows "df' = df \<or> (\<exists>s. df' = setitem df Error_Details s)"
proof (cases rule)
  case (PDict kvs)
  with assms show ?thesis
    unfolding apply_rule_def Let_def
    by (auto split: if_splits sum.splits option.splits dest: loc_iadd_setitem iadd_setitem)
qed (use assms in \<open>simp_all add: apply_rule_def\<close>)

lemma apply_rules_setitem:
  "apply_rules lib df rules = Inr df' \<Longrightarrow> df' = df \<or> (\<exists>s. df' = setitem df Error_Details s)"
proof (induction rules arbitrary: df)
  case Nil
  then show ?case by simp
next
  case (Cons r rs)
  from Cons.prems obtain df1 where 1: "apply_rule lib df r = Inr df1"
    and 2: "apply_rules lib df1 rs = Inr df'"
    by (auto split: sum.splits)
  from apply_rule_setitem[OF 1] Cons.IH[OF 2] show ?case
    by (auto simp: setitem_setitem)
qed

lemma validate_data_setitem:
  assumes "validate_data lib df rules = Saved out"
  shows "\<exists>s. out = setitem df Error_Details s"
proof -
  let ?df1 = "setitem df Error_Details (Object (replicate (nrows df) (Some [])))"
  from assms obtain parsed rs where "json_loads lib rules = Some parsed"
    and "py_iter parsed = Inr rs" and "apply_rules lib ?df1 rs = Inr out"
    by (auto simp: validate_data_def Let_def split: option.splits sum.splits)
  from apply_rules_setitem[OF this(3)] show ?thesis
    by (auto simp: setitem_setitem)
qed

lemma set_columns_setitem: "set (columns (setitem df c s)) = insert c (set (columns df))"
  by (induction df) (auto simp: columns_def)

lemma apply_rules_append:
  "apply_rules lib df (xs @ ys) =
     (case apply_rules lib df xs of Inl e \<Rightarrow> Inl e | Inr df' \<Rightarrow> apply_rules lib df' ys)"
  by (induction xs arbitrary: df) (auto split: sum.splits)

lemma mask_add_grows:
  "\<exists>ds'. mask_add sel msg (map Some ds) = map Some ds' \<and> list_all2 prefix ds ds'"
proof (induction sel arbitrary: ds)
  case Nil
  have "mask_add [] msg (map Some ds) = map Some ds" by simp
  moreover have "list_all2 prefix ds ds" by (simp add: list_all2_same)
  ultimately show ?case by blast
next
  case (Cons b bs)
  show ?case
  proof (cases ds)
    case Nil
    then show ?thesis by simp
  next
    case (Cons d ds0)
    from Cons.IH[of ds0] obtain ds1
      where 1: "mask_add bs msg (map Some ds0) = map Some ds1" and 2: "list_all2 prefix ds0 ds1"
      by blast
    let ?d = "if b then d @ msg else d"
    have "mask_add (b # bs) msg (map Some ds) = map Some (?d # ds1)"
      using Cons 1 by simp
    moreover have "list_all2 prefix ds (?d # ds1)" using Cons 2 by simp
    ultimately show ?thesis by blast
  qed
qed

lemma loc_iadd_grows:
  assumes "map_of df Error_Details = Some (Object (map Some ds))"
  shows "\<exists>ds'. loc_iadd df sel msg = Inr (setitem df Error_Details (Object (map Some ds'))) \<and>
           list_all2 prefix ds ds'"
proof -
  from mask_add_grows[of sel msg ds] obtain ds'
    where "mask_add sel msg (map Some ds) = map Some ds'" and "list_all2 prefix ds ds'" by blast
  with assms show ?thesis by (auto simp: loc_iadd_def)
qed

lemma iadd_text:
  assumes "map_of df Error_Details = Some (Object (map Some ds))"
  shows "iadd df msg = Inr (setitem df Error_Details (Object (map Some (map (\<lambda>d. d @ msg) ds))))"
  using assms by (simp add: iadd_def comp_def)

lemma apply_rule_cases:
  assumes "apply_rule lib df rule = Inr df'"
  shows "df' = df \<or> (\<exists>sel msg. loc_iadd df sel msg = Inr df') \<or> (\<exists>msg. iadd df msg = Inr df')"
proof (cases rule)
  case (PDict kvs)
  with assms show ?thesis
    unfolding apply_rule_def Let_def
    by (auto split: if_splits sum.splits option.splits)
qed (use assms in \<open>simp_all add: apply_rule_def\<close>)

text \<open>
  While the column \<open>Error_Details\<close> holds text, a step of the loop that returns keeps
  it so, only ever extending the text of a row.
\<close>

lemma apply_rule_grows:
  assumes ok: "apply_rule lib df rule = Inr df'"
    and dt: "map_of df Error_Details = Some (Object (map Some ds))"
  shows "\<exists>ds'. map_of df' Error_Details = Some (Object (map Some ds')) \<and>
           list_all2 prefix ds ds' \<and> set (columns df') = insert Error_Details (set (columns df))"
proof -
  have same: "list_all2 prefix ds ds" by (simp add: list_all2_same)
  from dt have "Error_Details \<in> set (columns df)"
    by (metis columns_def map_of_eq_None_iff option.distinct(1) set_map)
  then have cols: "insert Error_Details (set (columns df)) = set (columns df)" by blast
  have grow: "\<exists>ds'. map_of df' Error_Details = Some (Object (map Some ds')) \<and>
           list_all2 prefix ds ds' \<and> set (columns df') = insert Error_Details (set (columns df))"
    if "loc_iadd df sel msg = Inr df'" for sel msg
    using loc_iadd_grows[OF dt, of sel msg] that
    by (auto simp: map_of_setitem_same set_columns_setitem)
  have all: "\<exists>ds'. map_of df' Error_Details = Some (Object (map Some ds')) \<and>
           list_all2 prefix ds ds' \<and> set (columns df') = insert Error_Details (set (columns df))"
    if "iadd df msg = Inr df'" for msg
  proof -
    from that iadd_text[OF dt, of msg]
    have "df' = setitem df Error_Details (Object (map Some (map (\<lambda>d. d @ msg) ds)))" by simp
    moreover have "list_all2 prefix ds (map (\<lambda>d. d @ msg) ds)"
      by (simp add: list_all2_conv_all_nth)
    ultimately have "map_of df' Error_Details = Some (Object (map Some (map (\<lambda>d. d @ msg) ds))) \<and>
        list_all2 prefix ds (map (\<lambda>d. d @ msg) ds) \<and>
        set (columns df') = insert Error_Details (set (columns df))"
      by (simp only: map_of_setitem_same set_columns_setitem simp_thms)
    then show ?thesis by blast
  qed
  have skip: "\<exists>ds'. map_of df' Error_Details = Some (Object (map Some ds')) \<and>
           list_all2 prefix ds ds' \<and> set (columns df') = insert Error_Details (set (columns df))"
    if "df' = df"
    using that dt same cols by blast
  from apply_rule_cases[OF ok] consider "df' = df"
    | sel msg where "loc_iadd df sel msg = Inr df'"
    | msg where "iadd df msg = Inr df'" by blast
  then show ?thesis
  proof cases
    case 1
    then show ?thesis by (rule skip)
  next
    case 2
    then show ?thesis by (rule grow)
  next
    case 3
    then show ?thesis by (rule all)
  qed
qed

lemma apply_rules_grows:
  assumes "apply_rules lib df rules = Inr df'"
    and "map_of df Error_Details = Some (Object (map Some ds))"
  shows "\<exists>ds'. map_of df' Error_Details = Some (Object (map Some ds')) \<and>
           list_all2 prefix ds ds' \<and> set (columns df') = insert Error_Details (set (columns df))"
  using assms
proof (induction rules arbitrary: df ds)
  case Nil
  then have "df' = df" by simp
  moreover have "list_all2 prefix ds ds" by (simp add: list_all2_same)
  moreover from Nil have "Error_Details \<in> set (columns df)"
    by (metis columns_def map_of_eq_None_iff option.distinct(1) set_map)
  ultimately show ?case using Nil(2) by blast
next
  case (Cons r rs)
  from Cons.prems(1) obtain df1 where 1: "apply_rule lib df r = Inr df1"
    and 2: "apply_rules lib df1 rs = Inr df'"
    by (auto split: sum.splits)
  from apply_rule_grows[OF 1 Cons.prems(2)] obtain ds1
    where t1: "map_of df1 Error_Details = Some (Object (map Some ds1))"
      and g1: "list_all2 prefix ds ds1"
      and c1: "set (columns df1) = insert Error_Details (set (columns df))" by blast
  from Cons.IH[OF 2 t1] obtain ds'
    where t2: "map_of df' Error_Details = Some (Object (map Some ds'))"
      and g2: "list_all2 prefix ds1 ds'"
      and c2: "set (columns df') = insert Error_Details (set (columns df1))" by blast
  from g1 g2 have "list_all2 prefix ds ds'"
    by (rule list_all2_trans[rotated]) (rule prefix_order.trans)
  with t2 c1 c2 show ?case by auto
qed

lemma apply_rule_missing_column:
  assumes col: "dict_get kvs ''column'' = PStr c" and ne: "c \<noteq> []"
    and con: "truthy (dict_get kvs ''constraint'')"
    and missing: "c \<notin> set (columns df)"
    and details: "map_of df Error_Details = Some (Object (map Some ds))"
  shows "apply_rule lib df (PDict kvs) =
           Inr (setitem df Error_Details
             (Object (map Some (map (\<lambda>d. d @ c @ '' is missing in the dataset. '') ds))))"
proof -
  from missing have "map_of df c = None"
    by (simp add: columns_def map_of_eq_None_iff)
  with col ne con details show ?thesis
    by (simp add: apply_rule_def iadd_def comp_def)
qed

lemma first_rule_greater_than:
  assumes col: "dict_get kvs ''column'' = PStr c" and ne: "c \<noteq> []"
    and con: "dict_get kvs ''constraint'' = PStr ''greater than''"
    and s: "map_of df c = Some s" and num: "is_numeric_dtype s"
  shows "apply_rule lib df (PDict kvs) =
           (case py_float lib (dict_get kvs ''value'') of
              Inl e \<Rightarrow> Inl e
            | Inr v \<Rightarrow>
                (case series_le s v of
                   Inl e \<Rightarrow> Inl e
                 | Inr sel \<Rightarrow>
                     loc_iadd df sel
                       (c @ '' must be greater than '' @ py_str lib (dict_get kvs ''value'') @ ''. '')))"
  using assms by (simp add: apply_rule_def Let_def split: sum.splits)

section \<open>Properties of \<open>validate_data\<close>\<close>

text \<open>
  C1. With the single rule whose constraint is the text \<open>greater than\<close>, on a column
  of a numeric dtype other than \<open>Error_Details\<close> and with a value \<open>float\<close> accepts,
  \<open>validate_data\<close> saves the frame with \<open>Error_Details\<close> holding, in exactly the rows
  that the comparison on doubles selects (\<open>series_le\<close>: the column's value, as a
  double, is at most \<open>float(value)\<close>), the message
  "column must be greater than value. ", and the empty text in every other row.
  For an integer column and an integer value, all of magnitude at most \<open>2 ^ 53\<close>,
  these are exactly the rows whose value is at most the rule's value.
  On the rows -5 and 10 of \<open>Amount\<close> and the value 0, row 1 is flagged and row 2 is
  not. With the constraint written \<open>greater-than\<close> no row is flagged; and beyond
  \<open>2 ^ 53\<close> the row \<open>2 ^ 53 + 1\<close> is flagged for the value \<open>2 ^ 53\<close>, since both are
  the same double.
\<close>

theorem validate_data_greater_than:
  assumes loads: "json_loads lib rules = Some (PList [PDict kvs])"
    and col: "dict_get kvs ''column'' = PStr c" and ne: "c \<noteq> []"
    and con: "dict_get kvs ''constraint'' = PStr ''greater than''"
    and val: "py_float lib (dict_get kvs ''value'') = Inr v"
    and s: "map_of df c = Some s" and num: "is_numeric_dtype s"
    and c: "c \<noteq> Error_Details" and wf: "wf_frame df"
  shows "\<exists>sel. series_le s v = Inr sel \<and>
           validate_data lib df rules =
             Saved (setitem df Error_Details
               (Object (map (\<lambda>flagged. Some (if flagged
                   then c @ '' must be greater than '' @ py_str lib (dict_get kvs ''value'') @ ''. ''
                   else [])) sel))) \<and>
           (\<forall>xs k. s = Int64 xs \<and> dict_get kvs ''value'' = PInt k \<and>
                   list_all (\<lambda>x. \<bar>x\<bar> \<le> 2 ^ 53) xs \<and> \<bar>k\<bar> \<le> 2 ^ 53 \<longrightarrow>
                   sel = map (\<lambda>x. x \<le> k) xs)"
proof -
  define msg where
    "msg = c @ '' must be greater than '' @ py_str lib (dict_get kvs ''value'') @ ''. ''"
  let ?df1 = "setitem df Error_Details (Object (replicate (nrows df) (Some [])))"
  from series_le_numeric[OF num] obtain sel
    where sel: "series_le s v = Inr sel" and len: "length sel = series_len s" by blast
  from wf_frame_len[OF wf s] len have n: "length sel = nrows df" by simp
  from c s have s1: "map_of ?df1 c = Some s" by (simp add: map_of_setitem_other)
  have "apply_rule lib ?df1 (PDict kvs) = loc_iadd ?df1 sel msg"
    by (simp add: first_rule_greater_than[OF col ne con s1 num] val sel msg_def)
  also have "\<dots> = Inr (setitem df Error_Details
      (Object (map (\<lambda>flagged. Some (if flagged then msg else [])) sel)))"
    by (simp add: loc_iadd_def map_of_setitem_same setitem_setitem mask_add_replicate[OF n])
  finally have saved: "validate_data lib df rules = Saved (setitem df Error_Details
      (Object (map (\<lambda>flagged. Some (if flagged then msg else [])) sel)))"
    using loads by (simp add: validate_data_def)
  have exact: "sel = map (\<lambda>x. x \<le> k) xs"
    if "s = Int64 xs \<and> dict_get kvs ''value'' = PInt k \<and>
        list_all (\<lambda>x. \<bar>x\<bar> \<le> 2 ^ 53) xs \<and> \<bar>k\<bar> \<le> 2 ^ 53" for xs k
  proof -
    from that have k: "\<bar>k\<bar> \<le> 9007199254740992" by simp
    from that val int_to_float_exact[OF k] have "v = Finite (of_int k)" by simp
    with that sel series_le_int64_exact[of xs k] show ?thesis by simp
  qed
  from sel saved exact show ?thesis unfolding msg_def by blast
qed

theorem validate_data_greater_than_witness:
  \<open>validate_data example_lib amounts
     ''[{"column": "Amount", "constraint": "greater than", "value": 0}]'' =
   Saved [(''Amount'', Int64 [- 5, 10]),
          (''Error_Details'', Object [Some ''Amount must be greater than 0. '', Some []])]\<close>
proof -
  let ?kvs = "[(''column'', PStr ''Amount''), (''constraint'', PStr ''greater than''),
               (''value'', PInt 0)]"
  have 1: \<open>json_loads example_lib
      ''[{"column": "Amount", "constraint": "greater than", "value": 0}]'' = Some (PList [PDict ?kvs])\<close>
    by (simp add: example_lib_def example_texts_def)
  have 2: "dict_get ?kvs ''column'' = PStr ''Amount''" by (simp add: dict_get_def)
  have 3: "''Amount'' \<noteq> []" by simp
  have 4: "dict_get ?kvs ''constraint'' = PStr ''greater than''" by (simp add: dict_get_def)
  have 5: "py_float example_lib (dict_get ?kvs ''value'') = Inr (Finite 0)"
    by (simp add: dict_get_def int_to_float_exact)
  have 6: "map_of amounts ''Amount'' = Some (Int64 [- 5, 10])" by (simp add: amounts_def)
  have 7: "is_numeric_dtype (Int64 [- 5, 10])" by simp
  have 8: "''Amount'' \<noteq> Error_Details" by (simp add: Error_Details_def)
  have 9: "wf_frame amounts" by (simp add: wf_frame_def amounts_def columns_def nrows_def)
  from validate_data_greater_than[OF 1 2 3 4 5 6 7 8 9] obtain sel
    where a: "series_le (Int64 [- 5, 10]) (Finite 0) = Inr sel"
      and b: "validate_data example_lib amounts
          ''[{\"column\": \"Amount\", \"constraint\": \"greater than\", \"value\": 0}]'' =
          Saved (setitem amounts Error_Details
               (Object (map (\<lambda>flagged. Some (if flagged
                   then ''Amount'' @ '' must be greater than '' @
                        py_str example_lib (dict_get ?kvs ''value'') @ ''. ''
                   else [])) sel)))"
    by blast
  from a have "sel = [True, False]" by (simp add: round_int_exact)
  with b show ?thesis
    by (simp add: amounts_def Error_Details_def dict_get_def string_of_nat.simps)
qed

theorem validate_data_greater_than_counterexample:
  \<open>validate_data example_lib amounts
     ''[{"column": "Amount", "constraint": "greater-than", "value": 0}]'' =
   Saved [(''Amount'', Int64 [- 5, 10]), (''Error_Details'', Object [Some [], Some []])] \<and>
   validate_data example_lib large_amounts
     ''[{"column": "Amount", "constraint": "greater than", "value": 9007199254740992}]'' =
   Saved [(''Amount'', Int64 [9007199254740993, 9007199254740992]),
          (''Error_Details'',
             Object [Some ''Amount must be greater than 9007199254740992. '',
                     Some ''Amount must be greater than 9007199254740992. ''])]\<close>
proof
  show \<open>validate_data example_lib amounts
     ''[{"column": "Amount", "constraint": "greater-than", "value": 0}]'' =
   Saved [(''Amount'', Int64 [- 5, 10]), (''Error_Details'', Object [Some [], Some []])]\<close>
    by (simp add: validate_data_def example_lib_def example_texts_def amounts_def apply_rule_def
      dict_get_def Error_Details_def nrows_def)
  show \<open>validate_data example_lib large_amounts
     ''[{"column": "Amount", "constraint": "greater than", "value": 9007199254740992}]'' =
   Saved [(''Amount'', Int64 [9007199254740993, 9007199254740992]),
          (''Error_Details'',
             Object [Some ''Amount must be greater than 9007199254740992. '',
                     Some ''Amount must be greater than 9007199254740992. ''])]\<close>
    by (simp add: validate_data_def example_lib_def example_texts_def large_amounts_def
      apply_rule_def dict_get_def Error_Details_def nrows_def loc_iadd_def string_of_nat.simps
      int_to_float_exact round_int_exact round_int_2_53_plus_1)
qed




text \<open>
  What the loop does skip: a rule whose constraint is none of the three texts, and a
  rule \<open>allowed values\<close> whose value is not a list, both on a column of the frame.
\<close>

lemma apply_rule_unsupported_constraint:
  assumes "dict_get kvs ''column'' = PStr c" and "map_of df c = Some s"
    and "truthy (dict_get kvs ''constraint'')"
    and "dict_get kvs ''constraint'' \<noteq> PStr ''non-null''"
    and "dict_get kvs ''constraint'' \<noteq> PStr ''greater than''"
    and "dict_get kvs ''constraint'' \<noteq> PStr ''allowed values''"
  shows "apply_rule lib df (PDict kvs) = Inr df"
  using assms by (cases "c = []") (simp_all add: apply_rule_def Let_def)

lemma apply_rule_allowed_values_not_a_list:
  assumes "dict_get kvs ''column'' = PStr c" and "c \<noteq> []" and "map_of df c = Some s"
    and "dict_get kvs ''constraint'' = PStr ''allowed values''"
    and "list_items (dict_get kvs ''value'') = None"
  shows "apply_rule lib df (PDict kvs) = Inr df"
  using assms by (simp add: apply_rule_def Let_def)

text \<open>
  C3. A first rule with the constraint \<open>greater than\<close> on a numeric column whose value
  \<open>float\<close> rejects is not skipped: the exception of \<open>float\<close> leaves \<open>validate_data\<close>,
  the remaining rules are not applied and nothing is written.
\<close>

theorem validate_data_bad_value_raises:
  assumes loads: "json_loads lib rules = Some (PList (PDict kvs # rs))"
    and col: "dict_get kvs ''column'' = PStr c" and ne: "c \<noteq> []"
    and con: "dict_get kvs ''constraint'' = PStr ''greater than''"
    and val: "py_float lib (dict_get kvs ''value'') = Inl e"
    and s: "map_of df c = Some s" and num: "is_numeric_dtype s"
    and c: "c \<noteq> Error_Details"
  shows "validate_data lib df rules = Raised e \<and>
         output_file (validate_data lib df rules) = None"
proof -
  let ?df1 = "setitem df Error_Details (Object (replicate (nrows df) (Some [])))"
  from c s have s1: "map_of ?df1 c = Some s" by (simp add: map_of_setitem_other)
  have "apply_rule lib ?df1 (PDict kvs) = Inl e"
    by (simp add: first_rule_greater_than[OF col ne con s1 num] val)
  with loads show ?thesis by (simp add: validate_data_def)
qed

theorem validate_data_bad_value_raises_witness:
  \<open>validate_data example_lib amounts
     ''[{"column": "Amount", "constraint": "greater than", "value": "abc"}]'' = Raised ValueError \<and>
   output_file (validate_data example_lib amounts
     ''[{"column": "Amount", "constraint": "greater than", "value": "abc"}]'') = None\<close>
proof -
  let ?kvs = "[(''column'', PStr ''Amount''), (''constraint'', PStr ''greater than''),
               (''value'', PStr ''abc'')]"
  have 1: \<open>json_loads example_lib
      ''[{"column": "Amount", "constraint": "greater than", "value": "abc"}]'' =
      Some (PList (PDict ?kvs # []))\<close>
    by (simp add: example_lib_def example_texts_def)
  have 2: "dict_get ?kvs ''column'' = PStr ''Amount''" by (simp add: dict_get_def)
  have 3: "''Amount'' \<noteq> []" by simp
  have 4: "dict_get ?kvs ''constraint'' = PStr ''greater than''" by (simp add: dict_get_def)
  have 5: "py_float example_lib (dict_get ?kvs ''value'') = Inl ValueError"
    by (simp add: dict_get_def example_lib_def example_floats_def)
  have 6: "map_of amounts ''Amount'' = Some (Int64 [- 5, 10])" by (simp add: amounts_def)
  have 7: "is_numeric_dtype (Int64 [- 5, 10])" by simp
  have 8: "''Amount'' \<noteq> Error_Details" by (simp add: Error_Details_def)
  from validate_data_bad_value_raises[OF 1 2 3 4 5 6 7 8] show ?thesis .
qed

text \<open>
  C5. With the rule text \<open>[]\<close> and a frame that has no column \<open>Error_Details\<close>,
  \<open>validate_data\<close> saves the frame's columns unchanged, followed by the column
  \<open>Error_Details\<close> with the empty text in every row. A column \<open>Error_Details\<close> of
  the input is overwritten where it stands.
\<close>

theorem validate_data_empty_rules:
  assumes "json_loads lib ''[]'' = Some (PList [])"
    and "Error_Details \<notin> set (columns df)"
  shows "validate_data lib df ''[]'' =
           Saved (df @ [(Error_Details, Object (replicate (nrows df) (Some [])))])"
  using assms by (simp add: validate_data_def setitem_new)

theorem validate_data_empty_rules_witness:
  "validate_data example_lib amounts ''[]'' =
     Saved [(''Amount'', Int64 [- 5, 10]), (''Error_Details'', Object [Some [], Some []])]"
proof -
  have 1: "json_loads example_lib ''[]'' = Some (PList [])"
    by (simp add: example_lib_def example_texts_def)
  have 2: "Error_Details \<notin> set (columns amounts)"
    by (simp add: Error_Details_def columns_def amounts_def)
  from validate_data_empty_rules[OF 1 2] show ?thesis
    by (simp add: amounts_def nrows_def Error_Details_def)
qed

theorem validate_data_empty_rules_counterexample:
  "validate_data example_lib annotated_before ''[]'' =
     Saved [(''Error_Details'', Object [Some []]), (''Amount'', Int64 [5])] \<and>
   validate_data example_lib annotated_before ''[]'' \<noteq>
     Saved (annotated_before @ [(''Error_Details'', Object [Some []])])"
  by (simp add: validate_data_def example_lib_def example_texts_def annotated_before_def
      nrows_def Error_Details_def)

text \<open>
  C6. When a rule of the rule set has a non-empty text as its column, a constraint
  that counts as true, and the column is neither a column of the frame nor
  \<open>Error_Details\<close>, then in the frame \<open>validate_data\<close> saves, the text of
  \<open>Error_Details\<close> contains "column is missing in the dataset. " in every row,
  whatever the constraint is. A rule naming \<open>Error_Details\<close> itself finds that
  column in the frame and adds no such message.
\<close>

theorem validate_data_missing_column:
  assumes loads: "json_loads lib rules = Some (PList (before @ PDict kvs # after))"
    and col: "dict_get kvs ''column'' = PStr c" and ne: "c \<noteq> []"
    and con: "truthy (dict_get kvs ''constraint'')"
    and missing: "c \<notin> set (columns df)" and c: "c \<noteq> Error_Details"
    and saved: "validate_data lib df rules = Saved out"
  shows "\<exists>ds. map_of out Error_Details = Some (Object (map Some ds)) \<and>
           length ds = nrows df \<and>
           list_all (\<lambda>d. \<exists>pre post. d = pre @ (c @ '' is missing in the dataset. '') @ post) ds"
proof -
  define msg where "msg = c @ '' is missing in the dataset. ''"
  let ?ds0 = "replicate (nrows df) ([] :: string)"
  let ?df1 = "setitem df Error_Details (Object (replicate (nrows df) (Some [])))"
  have t0: "map_of ?df1 Error_Details = Some (Object (map Some ?ds0))"
    by (simp add: map_of_setitem_same)
  from saved loads have "apply_rules lib ?df1 (before @ PDict kvs # after) = Inr out"
    by (simp add: validate_data_def split: sum.splits)
  then obtain dfa dfb where a: "apply_rules lib ?df1 before = Inr dfa"
    and b: "apply_rule lib dfa (PDict kvs) = Inr dfb"
    and o: "apply_rules lib dfb after = Inr out"
    by (auto simp: apply_rules_append split: sum.splits)
  from apply_rules_grows[OF a t0] obtain dsa
    where ta: "map_of dfa Error_Details = Some (Object (map Some dsa))"
      and ga: "list_all2 prefix ?ds0 dsa"
      and ca: "set (columns dfa) = insert Error_Details (set (columns ?df1))" by blast
  from ca missing c have "c \<notin> set (columns dfa)" by (simp add: set_columns_setitem)
  from apply_rule_missing_column[OF col ne con this ta, of lib] b
  have "dfb = setitem dfa Error_Details (Object (map Some (map (\<lambda>d. d @ msg) dsa)))"
    by (simp add: msg_def)
  then have tb: "map_of dfb Error_Details = Some (Object (map Some (map (\<lambda>d. d @ msg) dsa)))"
    by (simp add: map_of_setitem_same)
  from apply_rules_grows[OF o tb] obtain ds
    where t: "map_of out Error_Details = Some (Object (map Some ds))"
      and g: "list_all2 prefix (map (\<lambda>d. d @ msg) dsa) ds" by blast
  from ga g have len: "length ds = nrows df" by (auto dest!: list_all2_lengthD)
  have "\<exists>pre post. d = pre @ msg @ post" if "d \<in> set ds" for d
  proof -
    from that obtain i where i: "i < length ds" and d: "d = ds ! i" by (auto simp: in_set_conv_nth)
    from g i have "prefix (dsa ! i @ msg) (ds ! i)"
      by (auto simp: list_all2_conv_all_nth)
    then obtain z where "ds ! i = (dsa ! i @ msg) @ z" by (auto simp: prefix_def)
    with d have "d = dsa ! i @ msg @ z" by simp
    then show ?thesis by blast
  qed
  then have "list_all (\<lambda>d. \<exists>pre post. d = pre @ msg @ post) ds" by (simp add: list_all_iff)
  with t len show ?thesis unfolding msg_def by blast
qed

theorem validate_data_missing_column_witness:
  \<open>\<exists>ds. map_of [(''Amount'', Int64 [- 5, 10]),
          (''Error_Details'', Object [Some ''Region is missing in the dataset. '',
                                      Some ''Region is missing in the dataset. ''])]
        Error_Details = Some (Object (map Some ds)) \<and>
      length ds = nrows amounts \<and>
      list_all (\<lambda>d. \<exists>pre post. d = pre @ (''Region'' @ '' is missing in the dataset. '') @ post) ds\<close>
proof -
  let ?kvs = "[(''column'', PStr ''Region''), (''constraint'', PStr ''non-null'')]"
  have 1: \<open>json_loads example_lib ''[{"column": "Region", "constraint": "non-null"}]'' =
      Some (PList ([] @ PDict ?kvs # []))\<close>
    by (simp add: example_lib_def example_texts_def)
  have 2: "dict_get ?kvs ''column'' = PStr ''Region''" by (simp add: dict_get_def)
  have 3: "''Region'' \<noteq> []" by simp
  have 4: "truthy (dict_get ?kvs ''constraint'')" by (simp add: dict_get_def)
  have 5: "''Region'' \<notin> set (columns amounts)" by (simp add: columns_def amounts_def)
  have 6: "''Region'' \<noteq> Error_Details" by (simp add: Error_Details_def)
  have 7: \<open>validate_data example_lib amounts ''[{"column": "Region", "constraint": "non-null"}]'' =
    Saved [(''Amount'', Int64 [- 5, 10]),
          (''Error_Details'', Object [Some ''Region is missing in the dataset. '',
                                      Some ''Region is missing in the dataset. ''])]\<close>
    by (simp add: validate_data_def example_lib_def example_texts_def amounts_def apply_rule_def
      dict_get_def Error_Details_def nrows_def iadd_def columns_def)
  from validate_data_missing_column[OF 1 2 3 4 5 6 7] show ?thesis .
qed

theorem validate_data_missing_column_counterexample:
  \<open>''Error_Details'' \<notin> set (columns amounts) \<and>
   validate_data example_lib amounts ''[{"column": "Error_Details", "constraint": "non-null"}]'' =
   Saved [(''Amount'', Int64 [- 5, 10]), (''Error_Details'', Object [Some [], Some []])]\<close>
  by (simp add: validate_data_def example_lib_def example_texts_def amounts_def apply_rule_def
      dict_get_def Error_Details_def nrows_def loc_iadd_def columns_def)



text \<open>
  C10. In the frame \<open>validate_data\<close> saves, the columns other than \<open>Error_Details\<close>
  are those of the input, in order and unchanged: \<open>Error_Details\<close> is the only
  column written. When the input has no such column, the saved frame is the input
  followed by \<open>Error_Details\<close>; a column \<open>Error_Details\<close> of the input is overwritten.
\<close>

theorem validate_data_frame:
  assumes "validate_data lib df rules = Saved out"
  shows "filter (\<lambda>col. fst col \<noteq> Error_Details) out =
           filter (\<lambda>col. fst col \<noteq> Error_Details) df \<and>
         (\<exists>s. out = setitem df Error_Details s) \<and>
         (Error_Details \<notin> set (columns df) \<longrightarrow> (\<exists>s. out = df @ [(Error_Details, s)]))"
proof -
  from validate_data_setitem[OF assms] obtain s where out: "out = setitem df Error_Details s" ..
  then show ?thesis by (auto simp: filter_setitem setitem_new)
qed

theorem validate_data_frame_witness:
  \<open>filter (\<lambda>col. fst col \<noteq> Error_Details)
     [(''Amount'', Int64 [- 5, 10]),
      (''Error_Details'', Object [Some ''Amount must be greater than 0. '', Some []])] =
   filter (\<lambda>col. fst col \<noteq> Error_Details) amounts \<and>
   (\<exists>s. [(''Amount'', Int64 [- 5, 10]),
         (''Error_Details'', Object [Some ''Amount must be greater than 0. '', Some []])] =
        amounts @ [(Error_Details, s)])\<close>
proof -
  have 1: \<open>validate_data example_lib amounts
          ''[{"column": "Amount", "constraint": "greater than", "value": 0}]'' =
        Saved [(''Amount'', Int64 [- 5, 10]),
          (''Error_Details'', Object [Some ''Amount must be greater than 0. '', Some []])]\<close>
    by (simp add: validate_data_def example_lib_def example_texts_def amounts_def apply_rule_def
        dict_get_def Error_Details_def nrows_def loc_iadd_def string_of_nat.simps
        int_to_float_exact round_int_exact)
  have 2: "Error_Details \<notin> set (columns amounts)"
    by (simp add: Error_Details_def columns_def amounts_def)
  from validate_data_frame[OF 1] 2 show ?thesis by blast
qed

theorem validate_data_frame_counterexample:
  \<open>map_of annotated_before ''Error_Details'' = Some (Object [Some ''old'']) \<and>
   validate_data example_lib annotated_before
     ''[{"column": "Amount", "constraint": "greater than", "value": 0}]'' =
   Saved [(''Error_Details'', Object [Some []]), (''Amount'', Int64 [5])]\<close>
  by (simp add: validate_data_def example_lib_def example_texts_def annotated_before_def
      apply_rule_def dict_get_def Error_Details_def nrows_def loc_iadd_def string_of_nat.simps
      int_to_float_exact round_int_exact)

section \<open>Properties of \<open>extract_profile_rules\<close>\<close>

lemma extract_profile_rules_non_200:
  "status_code resp \<noteq> 200 \<Longrightarrow> extract_profile_rules lib resp = Inr ''[]''"
  by (simp add: extract_profile_rules_def)

lemma extract_profile_rules_no_choices:
  assumes "status_code resp = 200" and "json_loads lib (body resp) = Some (PDict result)"
    and "map_of result ''choices'' = None"
  shows "extract_profile_rules lib resp = Inr ''[]''"
  using assms by (simp add: extract_profile_rules_def bind_exn_def)

text \<open>
  C4. A response with status 200 whose body is a JSON object with a first choice
  whose message has a content that is not a string (\<open>null\<close>, for one) makes
  \<open>extract_profile_rules\<close> raise \<open>TypeError\<close>: the search of \<open>clean_json_response\<close>
  wants a string, and only \<open>JSONDecodeError\<close> is caught.
\<close>

theorem extract_profile_rules_raises:
  assumes "status_code resp = 200"
    and "json_loads lib (body resp) = Some (PDict result)"
    and "map_of result ''choices'' = Some (PList (PDict choice # cs))"
    and "map_of choice ''message'' = Some (PDict message)"
    and "map_of message ''content'' = Some v"
    and "\<forall>t. v \<noteq> PStr t"
  shows "extract_profile_rules lib resp = Inl TypeError"
proof -
  from assms(4) have m: "''message'' \<in> set (map fst choice)"
    by (metis map_of_eq_None_iff option.distinct(1) set_map)
  from assms(5) have c: "''content'' \<in> set (map fst message)"
    by (metis map_of_eq_None_iff option.distinct(1) set_map)
  from assms(6) have "(case v of PStr t \<Rightarrow> f t | _ \<Rightarrow> Inl TypeError) = Inl TypeError" for f :: "string \<Rightarrow> exn + string"
    by (cases v) simp_all
  with assms(1-5) m c show ?thesis
    by (simp add: extract_profile_rules_def bind_exn_def)
qed

theorem extract_profile_rules_raises_witness:
  \<open>extract_profile_rules example_lib
     \<lparr>status_code = 200, body = ''{"choices": [{"message": {"content": null}}]}''\<rparr> = Inl TypeError\<close>
proof -
  let ?resp = \<open>\<lparr>status_code = 200, body = ''{"choices": [{"message": {"content": null}}]}''\<rparr>\<close>
  let ?message = "[(''content'', PNone)]"
  let ?choice = "[(''message'', PDict ?message)]"
  let ?top = "[(''choices'', PList [PDict ?choice])]"
  have 1: "status_code ?resp = 200" by simp
  have 2: "json_loads example_lib (body ?resp) = Some (PDict ?top)"
    by (simp add: example_lib_def example_texts_def)
  have 3: "map_of ?top ''choices'' = Some (PList (PDict ?choice # []))" by simp
  have 4: "map_of ?choice ''message'' = Some (PDict ?message)" by simp
  have 5: "map_of ?message ''content'' = Some PNone" by simp
  have 6: "\<forall>t. PNone \<noteq> PStr t" by simp
  from extract_profile_rules_raises[OF 1 2 3 4 5 6] show ?thesis .
qed

end
